theory Spec2Isabelle
  imports Main "HOL-Library.Product_Lexorder"
begin

section \<open>Identifiers, sinks and tank schematics\<close>

text \<open>
  Modelled from the spec: the identifier types, the sink variant, the tank schematic and the
  result variants are declared in headers (\<^verbatim>\<open>tnt/types.hpp\<close>, \<^verbatim>\<open>tnt/lookups.hpp\<close>) that are not
  among the sources; \<^verbatim>\<open>lookups.cpp\<close> fixes how each is built and read. Object identifiers are
  instance numbers. An attachment is addressed by an optional tank and an index on that
  tank; a missing tank means the tank currently in scope.
\<close>

type_synonym tank_id_type = nat
type_synonym account_id_type = nat
type_synonym asset_id_type = nat
type_synonym index_type = nat

record attachment_id_type =
  tank_id :: "tank_id_type option"
  attachment_id :: index_type

text \<open>The sink variant: \<^verbatim>\<open>static_variant<same_tank, account_id_type, tank_id_type, attachment_id_type>\<close>.\<close>

datatype sink =
    Same_Tank
  | Account_Sink account_id_type
  | Tank_Sink tank_id_type
  | Attachment_Sink attachment_id_type

text \<open>
  Modelled from the spec: the attachment kinds are declared outside the sources. Each kind
  answers two queries, \<^verbatim>\<open>receives_asset()\<close> and \<^verbatim>\<open>output_sink()\<close>, and the lookups only ever
  dispatch to those two; an attachment is therefore the pair of its two answers.
\<close>

record tank_attachment =
  receives_asset :: "asset_id_type option"
  output_sink :: "sink option"

text \<open>
  Modelled from the spec: a tank schematic has an asset type and a map from attachment index
  to attachment; the lookups read nothing else of it.
\<close>

record tank_schematic =
  asset_type :: asset_id_type
  attachments :: "index_type \<rightharpoonup> tank_attachment"

text \<open>
  Modelled from the spec: \<^verbatim>\<open>is_terminal_sink\<close> is declared outside the sources. Accounts and
  sinks that resolve to nothing further are terminal; the walk reads every non-terminal sink
  as an attachment address, so the attachment sinks are the ones that may redirect.
\<close>

fun is_terminal_sink :: "sink \<Rightarrow> bool" where
  "is_terminal_sink (Attachment_Sink a) = False"
| "is_terminal_sink s = True"

section \<open>Result types\<close>

text \<open>
  Modelled from the spec: each result is a closed variant of a success payload and error
  tags (\<^verbatim>\<open>need_lookup_function\<close>, \<^verbatim>\<open>nonexistent_object\<close> with the offending id, \<^verbatim>\<open>no_asset\<close> with the
  attachment, \<^verbatim>\<open>bad_sink\<close> with a reason and the sink, \<^verbatim>\<open>exceeded_max_chain_length\<close>). Which
  alternatives a variant has is read off \<^verbatim>\<open>lookups.cpp\<close>: the \<^verbatim>\<open>is_error\<close> overloads, the values
  each function returns and the alternatives \<^verbatim>\<open>check_asset\<close> tests. An id given where a sink
  is stored is the attachment sink of that id.
\<close>

datatype object_id = Tank_Object tank_id_type | Attachment_Object attachment_id_type

text \<open>
  The two failures every result variant can hold: \<^verbatim>\<open>need_lookup_function\<close> and
  \<^verbatim>\<open>nonexistent_object\<close> with the offending id.
\<close>

datatype lookup_error = need_lookup_function | nonexistent_object object_id

datatype bad_sink_reason = receives_wrong_asset | receives_no_asset

datatype bad_sink = bad_sink bad_sink_reason sink

text \<open>\<^verbatim>\<open>lookup_result<T>\<close>: a reference to the object, or a lookup failure.\<close>

datatype 'a lookup_result = lookup_ok 'a | lookup_failed lookup_error

text \<open>\<^verbatim>\<open>attachment_asset\<close>: the asset an attachment receives, \<^verbatim>\<open>no_asset\<close>, or a lookup failure.\<close>

datatype attachment_asset =
    attachment_receives asset_id_type
  | attachment_no_asset attachment_id_type
  | attachment_asset_failed lookup_error

text \<open>\<^verbatim>\<open>sink_asset\<close>: as above, with \<^verbatim>\<open>any_asset\<close> for sinks that take everything.\<close>

datatype sink_asset =
    sink_receives asset_id_type
  | any_asset
  | no_asset attachment_id_type
  | sink_asset_failed lookup_error

datatype attachment_sink_result =
    attachment_sink_ok sink
  | attachment_bad_sink bad_sink
  | attachment_sink_failed lookup_error

text \<open>
  A chain: the sinks in order, and the tank the last attachment address was read on. A
  chain is created from its first sink, with no tank set.
\<close>

record sink_chain =
  sinks :: "sink list"
  final_sink_tank :: "tank_id_type option"

datatype sink_chain_result =
    chain_ok sink_chain
  | exceeded_max_chain_length
  | chain_bad_sink bad_sink
  | chain_failed lookup_error

section \<open>Lookups\<close>

text \<open>
  The state of a lookup: the tank in scope and, optionally, the function that finds other
  tanks (it returns a null pointer, here \<open>None\<close>, for a tank that does not exist). The
  \<^verbatim>\<open>CHECK_..._RESULT()\<close> lines of the source are compile-time checks of the variants'
  alternatives.
\<close>

record lookup_utilities =
  current_tank :: tank_schematic
  get_tank :: "(tank_id_type \<Rightarrow> tank_schematic option) option"

definition lookup_tank :: "lookup_utilities \<Rightarrow> tank_id_type option \<Rightarrow> tank_schematic lookup_result" where
  "lookup_tank utils tid =
     (case tid of
        None \<Rightarrow> lookup_ok (current_tank utils)
      | Some i \<Rightarrow>
          (case get_tank utils of
             None \<Rightarrow> lookup_failed need_lookup_function
           | Some f \<Rightarrow>
               (case f i of
                  None \<Rightarrow> lookup_failed (nonexistent_object (Tank_Object i))
                | Some t \<Rightarrow> lookup_ok t)))"

text \<open>
  Where the source tests \<^verbatim>\<open>is_error\<close> and returns \<^verbatim>\<open>import_from\<close> of the narrower result, the
  model matches on the failure and rebuilds it in the wider result type.
\<close>

definition lookup_attachment :: "lookup_utilities \<Rightarrow> attachment_id_type \<Rightarrow> tank_attachment lookup_result" where
  "lookup_attachment utils aid =
     (case lookup_tank utils (tank_id aid) of
        lookup_failed e \<Rightarrow> lookup_failed e
      | lookup_ok t \<Rightarrow>
          (case attachments t (attachment_id aid) of
             Some a \<Rightarrow> lookup_ok a
           | None \<Rightarrow> lookup_failed (nonexistent_object (Attachment_Object aid))))"

definition get_attachment_asset :: "lookup_utilities \<Rightarrow> attachment_id_type \<Rightarrow> attachment_asset" where
  "get_attachment_asset utils aid =
     (case lookup_attachment utils aid of
        lookup_failed e \<Rightarrow> attachment_asset_failed e
      | lookup_ok a \<Rightarrow>
          (case receives_asset a of
             Some t \<Rightarrow> attachment_receives t
           | None \<Rightarrow> attachment_no_asset aid))"

definition get_attachment_sink :: "lookup_utilities \<Rightarrow> attachment_id_type \<Rightarrow> attachment_sink_result" where
  "get_attachment_sink utils aid =
     (case lookup_attachment utils aid of
        lookup_failed e \<Rightarrow> attachment_sink_failed e
      | lookup_ok a \<Rightarrow>
          (case output_sink a of
             Some s \<Rightarrow> attachment_sink_ok s
           | None \<Rightarrow> attachment_bad_sink (bad_sink receives_no_asset (Attachment_Sink aid))))"

text \<open>The conversion of an \<^verbatim>\<open>attachment_asset\<close> to the wider \<^verbatim>\<open>sink_asset\<close> variant.\<close>

fun sink_asset_of :: "attachment_asset \<Rightarrow> sink_asset" where
  "sink_asset_of (attachment_receives t) = sink_receives t"
| "sink_asset_of (attachment_no_asset aid) = no_asset aid"
| "sink_asset_of (attachment_asset_failed e) = sink_asset_failed e"

fun get_sink_asset :: "lookup_utilities \<Rightarrow> sink \<Rightarrow> sink_asset" where
  "get_sink_asset utils Same_Tank = sink_receives (asset_type (current_tank utils))"
| "get_sink_asset utils (Account_Sink a) = any_asset"
| "get_sink_asset utils (Tank_Sink tid) =
     (case lookup_tank utils (Some tid) of
        lookup_failed e \<Rightarrow> sink_asset_failed e
      | lookup_ok t \<Rightarrow> sink_receives (asset_type t))"
| "get_sink_asset utils (Attachment_Sink aid) = sink_asset_of (get_attachment_asset utils aid)"

section \<open>Sink chains\<close>

text \<open>
  The \<^verbatim>\<open>check_asset\<close> closure of \<^verbatim>\<open>get_sink_chain\<close>: \<open>None\<close> when the sink passes, otherwise
  the result to return.
\<close>

definition check_asset :: "lookup_utilities \<Rightarrow> asset_id_type option \<Rightarrow> sink \<Rightarrow> sink_chain_result option" where
  "check_asset utils asset_type' s =
     (case asset_type' of
        None \<Rightarrow> None
      | Some required \<Rightarrow>
          (case get_sink_asset utils s of
             any_asset \<Rightarrow> None
           | sink_asset_failed need_lookup_function \<Rightarrow> None
           | sink_receives t \<Rightarrow>
               (if t = required then None
                else Some (chain_bad_sink (bad_sink receives_wrong_asset s)))
           | no_asset a \<Rightarrow> Some (chain_bad_sink (bad_sink receives_no_asset s))
           | sink_asset_failed (nonexistent_object ob) \<Rightarrow> Some (chain_failed (nonexistent_object ob))))"

text \<open>
  The two branches on the address of the attachment being followed: an address that names
  its tank moves the chain to that tank, an address that names none is read on the tank the
  chain is on.
\<close>

definition resolved_id :: "tank_id_type option \<Rightarrow> attachment_id_type \<Rightarrow> attachment_id_type" where
  "resolved_id ctx a = (if tank_id a \<noteq> None then a else a\<lparr>tank_id := ctx\<rparr>)"

definition followed_tank :: "tank_id_type option \<Rightarrow> attachment_id_type \<Rightarrow> tank_id_type option" where
  "followed_tank ctx a = (if tank_id a \<noteq> None then tank_id a else ctx)"

text \<open>
  \<^verbatim>\<open>static_variant::get<attachment_id_type>\<close> throws on any other alternative; \<open>None\<close> stands
  for the throw.
\<close>

fun get_attachment_id_type :: "sink \<Rightarrow> attachment_id_type option" where
  "get_attachment_id_type (Attachment_Sink a) = Some a"
| "get_attachment_id_type s = None"

text \<open>
  The loop of \<^verbatim>\<open>get_sink_chain\<close> together with the statements after it. The state is the
  reference \<open>s\<close>, which the loop rebinds to the sink it is following, and the chain. The
  result is \<open>None\<close> when the variant access throws.
\<close>

function sink_chain_loop ::
  "lookup_utilities \<Rightarrow> nat \<Rightarrow> asset_id_type option \<Rightarrow> sink \<Rightarrow> sink_chain \<Rightarrow> sink_chain_result option" where
  "sink_chain_loop utils max_chain_length asset_type' s chain =
     (if is_terminal_sink (last (sinks chain)) then
        (case check_asset utils asset_type' s of
           Some r \<Rightarrow> Some r
         | None \<Rightarrow> Some (chain_ok chain))
      else if length (sinks chain) > max_chain_length then Some exceeded_max_chain_length
      else
        (case get_attachment_id_type (last (sinks chain)) of
           None \<Rightarrow> None
         | Some a \<Rightarrow>
             (case get_attachment_sink utils (resolved_id (final_sink_tank chain) a) of
                attachment_bad_sink b \<Rightarrow> Some (chain_bad_sink b)
              | attachment_sink_failed e \<Rightarrow> Some (chain_failed e)
              | attachment_sink_ok nxt \<Rightarrow>
                  (case check_asset utils asset_type' (last (sinks chain)) of
                     Some r \<Rightarrow> Some r
                   | None \<Rightarrow>
                       sink_chain_loop utils max_chain_length asset_type' (last (sinks chain))
                         \<lparr>sinks = sinks chain @ [nxt],
                          final_sink_tank = followed_tank (final_sink_tank chain) a\<rparr>))))"
  by pat_completeness auto
termination
  by (relation "measure (\<lambda>(utils, m, a, s, chain). Suc m - length (sinks chain))") auto

declare sink_chain_loop.simps [simp del]

definition get_sink_chain ::
  "lookup_utilities \<Rightarrow> sink \<Rightarrow> nat \<Rightarrow> asset_id_type option \<Rightarrow> sink_chain_result option" where
  "get_sink_chain utils s max_chain_length asset_type' =
     (case check_asset utils asset_type' s of
        Some r \<Rightarrow> Some r
      | None \<Rightarrow>
          sink_chain_loop utils max_chain_length asset_type' s \<lparr>sinks = [s], final_sink_tank = None\<rparr>)"

text \<open>
  A path of redirections as the walk reads it, starting on the tank \<open>ctx\<close> the chain is on:
  each attachment of the list forwards to the next one, and the last forwards to \<open>t\<close>.
  \<open>tank_after\<close> is the tank the chain is on once the path has been followed.
\<close>

fun follows :: "lookup_utilities \<Rightarrow> tank_id_type option \<Rightarrow> attachment_id_type list \<Rightarrow> sink \<Rightarrow> bool" where
  "follows utils ctx [] t = True"
| "follows utils ctx [a] t = (get_attachment_sink utils (resolved_id ctx a) = attachment_sink_ok t)"
| "follows utils ctx (a # b # bs) t =
     (get_attachment_sink utils (resolved_id ctx a) = attachment_sink_ok (Attachment_Sink b) \<and>
      follows utils (followed_tank ctx a) (b # bs) t)"

definition tank_after :: "tank_id_type option \<Rightarrow> attachment_id_type list \<Rightarrow> tank_id_type option" where
  "tank_after ctx as = foldl followed_tank ctx as"

subsection \<open>Tanks used as concrete inputs\<close>

definition on_current_tank :: "index_type \<Rightarrow> attachment_id_type" where
  "on_current_tank i = \<lparr>tank_id = None, attachment_id = i\<rparr>"

definition on_tank :: "tank_id_type \<Rightarrow> index_type \<Rightarrow> attachment_id_type" where
  "on_tank t i = \<lparr>tank_id = Some t, attachment_id = i\<rparr>"

text \<open>A tank of asset 1 whose attachment 0 receives asset 2 and forwards to the tank itself.\<close>

definition tank_back_to_self :: lookup_utilities where
  "tank_back_to_self =
     \<lparr>current_tank =
        \<lparr>asset_type = 1,
         attachments = [0 \<mapsto> \<lparr>receives_asset = Some 2, output_sink = Some Same_Tank\<rparr>]\<rparr>,
      get_tank = None\<rparr>"

text \<open>Tank 5, whose attachments 0 and 1 forward to each other; the lookup function knows it.\<close>

definition looping_tank :: tank_schematic where
  "looping_tank =
     \<lparr>asset_type = 1,
      attachments =
        [0 \<mapsto> \<lparr>receives_asset = None, output_sink = Some (Attachment_Sink (on_tank 5 1))\<rparr>,
         1 \<mapsto> \<lparr>receives_asset = None, output_sink = Some (Attachment_Sink (on_tank 5 0))\<rparr>]\<rparr>"

definition looping_utils :: lookup_utilities where
  "looping_utils =
     \<lparr>current_tank = looping_tank,
      get_tank = Some (\<lambda>i. if i = 5 then Some looping_tank else None)\<rparr>"

text \<open>
  A tank of asset 2: attachment 0 receives asset 2 and forwards to attachment 1, which
  receives asset 3 and forwards to account 9. No lookup function.
\<close>

definition two_hop_utils :: lookup_utilities where
  "two_hop_utils =
     \<lparr>current_tank =
        \<lparr>asset_type = 2,
         attachments =
           [0 \<mapsto> \<lparr>receives_asset = Some 2, output_sink = Some (Attachment_Sink (on_current_tank 1))\<rparr>,
            1 \<mapsto> \<lparr>receives_asset = Some 3, output_sink = Some (Account_Sink 9)\<rparr>]\<rparr>,
      get_tank = None\<rparr>"

text \<open>
  A tank of asset 2 whose attachment 0 forwards to attachment 0 of tank 7. No lookup
  function.
\<close>

definition cross_tank_utils :: lookup_utilities where
  "cross_tank_utils =
     \<lparr>current_tank =
        \<lparr>asset_type = 2,
         attachments =
           [0 \<mapsto> \<lparr>receives_asset = Some 2, output_sink = Some (Attachment_Sink (on_tank 7 0))\<rparr>]\<rparr>,
      get_tank = None\<rparr>"

text \<open>
  Tank 7 (asset 2): attachment 0 receives asset 2 and forwards to attachment 1 of the same
  tank, addressed without a tank; attachment 1 receives asset 3 and forwards to account 9.
  The tank in scope (asset 2): attachment 0 receives asset 2 and forwards to attachment 0 of
  tank 7; attachment 1 receives asset 2.
\<close>

definition remote_tank :: tank_schematic where
  "remote_tank =
     \<lparr>asset_type = 2,
      attachments =
        [0 \<mapsto> \<lparr>receives_asset = Some 2, output_sink = Some (Attachment_Sink (on_current_tank 1))\<rparr>,
         1 \<mapsto> \<lparr>receives_asset = Some 3, output_sink = Some (Account_Sink 9)\<rparr>]\<rparr>"

definition via_remote_utils :: lookup_utilities where
  "via_remote_utils =
     \<lparr>current_tank =
        \<lparr>asset_type = 2,
         attachments =
           [0 \<mapsto> \<lparr>receives_asset = Some 2, output_sink = Some (Attachment_Sink (on_tank 7 0))\<rparr>,
            1 \<mapsto> \<lparr>receives_asset = Some 2, output_sink = Some Same_Tank\<rparr>]\<rparr>,
      get_tank = Some (\<lambda>i. if i = 7 then Some remote_tank else None)\<rparr>"

text \<open>
  Tank 7 has asset 2 and one attachment, 0, which receives asset 5. The tank in scope has
  asset 1; its attachment 0 receives asset 4 and its attachment 1 declares no asset. The
  lookup function knows tank 7 only.
\<close>

definition other_tank :: tank_schematic where
  "other_tank =
     \<lparr>asset_type = 2,
      attachments = [0 \<mapsto> \<lparr>receives_asset = Some 5, output_sink = Some Same_Tank\<rparr>]\<rparr>"

definition two_tank_utils :: lookup_utilities where
  "two_tank_utils =
     \<lparr>current_tank =
        \<lparr>asset_type = 1,
         attachments =
           [0 \<mapsto> \<lparr>receives_asset = Some 4, output_sink = Some (Account_Sink 9)\<rparr>,
            1 \<mapsto> \<lparr>receives_asset = None, output_sink = None\<rparr>]\<rparr>,
      get_tank = Some (\<lambda>i. if i = 7 then Some other_tank else None)\<rparr>"

section \<open>Asset stores\<close>

text \<open>
  \<^verbatim>\<open>share_type\<close> is a checked 64-bit signed integer: an operation whose result leaves the
  range throws.
\<close>

record asset =
  amount :: int
  asset_id :: asset_id_type

record asset_store =
  store_amount :: asset
  serialized :: bool

definition in_share_range :: "int \<Rightarrow> bool" where
  "in_share_range x = (- (2 ^ 63) \<le> x \<and> x < 2 ^ 63)"

definition checked :: "int \<Rightarrow> int option" where
  "checked x = (if in_share_range x then Some x else None)"

text \<open>The default constructor: no amount, of the default asset, not serialized.\<close>

definition empty_store :: asset_store where
  "empty_store = \<lparr>store_amount = \<lparr>amount = 0, asset_id = 0\<rparr>, serialized = False\<rparr>"

definition unchecked_create :: "asset \<Rightarrow> asset_store" where
  "unchecked_create storage = empty_store\<lparr>store_amount := storage\<rparr>"

definition unchecked_destroy :: "asset_store \<Rightarrow> asset_store" where
  "unchecked_destroy st = st\<lparr>store_amount := (store_amount st)\<lparr>amount := 0\<rparr>\<rparr>"

text \<open>
  The queries \<^verbatim>\<open>amount()\<close> and \<^verbatim>\<open>asset_type()\<close>, renamed apart from the fields of the same name.
\<close>

definition amount_of :: "asset_store \<Rightarrow> int" where
  "amount_of st = amount (store_amount st)"

definition asset_type_of :: "asset_store \<Rightarrow> asset_id_type" where
  "asset_type_of st = asset_id (store_amount st)"

text \<open>
  \<^verbatim>\<open>destroy\<close>: \<open>None\<close> is the failed \<^verbatim>\<open>FC_ASSERT\<close>; otherwise the store is left empty and
  not serialized.
\<close>

definition destroy :: "asset_store \<Rightarrow> asset_store option" where
  "destroy st =
     (if amount (store_amount st) = 0 \<or> serialized st
      then Some (st\<lparr>serialized := False, store_amount := (store_amount st)\<lparr>amount := 0\<rparr>\<rparr>)
      else None)"

text \<open>The destructor runs \<^verbatim>\<open>destroy\<close> and the store is gone.\<close>

definition destructor :: "asset_store \<Rightarrow> unit option" where
  "destructor st = (case destroy st of None \<Rightarrow> None | Some st' \<Rightarrow> Some ())"

text \<open>
  Move assignment \<^verbatim>\<open>this = std::move(other)\<close>, on two distinct stores: the pair returned is
  the assigned store and what is left of \<open>other\<close>.
\<close>

definition move_assign :: "asset_store \<Rightarrow> asset_store \<Rightarrow> (asset_store \<times> asset_store) option" where
  "move_assign this other =
     (case destroy this of
        None \<Rightarrow> None
      | Some this' \<Rightarrow>
          Some (this'\<lparr>store_amount := store_amount other\<rparr>,
                other\<lparr>store_amount := (store_amount other)\<lparr>amount := 0\<rparr>\<rparr>))"

text \<open>
  The serialization hooks. Writing (\<^verbatim>\<open>to_variant\<close>, \<^verbatim>\<open>pack\<close>) yields the stored asset and marks
  the store; reading (\<^verbatim>\<open>from_variant\<close>, \<^verbatim>\<open>unpack\<close>) marks the store and replaces the stored
  asset by the decoded one. The codecs themselves are outside these files: the written value
  is the asset, the read value is a parameter.
\<close>

definition to_variant :: "asset_store \<Rightarrow> asset_store \<times> asset" where
  "to_variant st = (st\<lparr>serialized := True\<rparr>, store_amount st)"

definition pack :: "asset_store \<Rightarrow> asset_store \<times> asset" where
  "pack st = (st\<lparr>serialized := True\<rparr>, store_amount st)"

definition from_variant :: "asset_store \<Rightarrow> asset \<Rightarrow> asset_store" where
  "from_variant st v = st\<lparr>serialized := True, store_amount := v\<rparr>"

definition unpack :: "asset_store \<Rightarrow> asset \<Rightarrow> asset_store" where
  "unpack st v = st\<lparr>serialized := True, store_amount := v\<rparr>"

subsection \<open>Moving asset between stores\<close>

text \<open>
  Stores are objects that the move operations update in place; a heap is the list of the
  live stores, addressed by position.
\<close>

type_synonym heap = "asset_store list"

definition set_amount :: "asset_store \<Rightarrow> int \<Rightarrow> asset_store" where
  "set_amount st x = st\<lparr>store_amount := (store_amount st)\<lparr>amount := x\<rparr>\<rparr>"

text \<open>
  Modelled from the spec: \<^verbatim>\<open>asset_store::to(destination, amount)\<close> is declared in the header
  and defined outside the sources. The amount must not exceed what the source
  holds; a destination that holds a nonzero amount of another asset is an invariant
  violation, an empty one takes the asset of the source; the destination is incremented
  and the source decremented by the amount, in checked arithmetic. \<open>None\<close> is the
  violation; a position that is not on the heap is no store, and gives \<open>None\<close> as well.
\<close>

definition to_store :: "heap \<Rightarrow> nat \<Rightarrow> nat \<Rightarrow> int \<Rightarrow> heap option" where
  "to_store h src dst a =
     (if \<not> (src < length h \<and> dst < length h) then None
      else if \<not> a \<le> amount_of (h ! src) then None
      else if amount_of (h ! dst) \<noteq> 0 \<and> asset_type_of (h ! dst) \<noteq> asset_type_of (h ! src) then None
      else
        (case checked (amount_of (h ! dst) + a) of
           None \<Rightarrow> None
         | Some d \<Rightarrow>
             (let h1 = h[dst := (h ! dst)\<lparr>store_amount := \<lparr>amount = d, asset_id = asset_type_of (h ! src)\<rparr>\<rparr>]
              in case checked (amount_of (h1 ! src) - a) of
                   None \<Rightarrow> None
                 | Some s \<Rightarrow> Some (h1[src := set_amount (h1 ! src) s]))))"

text \<open>
  The mover's conversion to an \<^verbatim>\<open>asset_store\<close>: a fresh default store receives the amount
  from the source, which is one of the live stores.
\<close>

definition move_to_new :: "heap \<Rightarrow> nat \<Rightarrow> int \<Rightarrow> heap option" where
  "move_to_new h src a =
     (if src < length h then to_store (h @ [empty_store]) src (length h) a else None)"

datatype move_op = Move_To nat nat int | Move_New nat int

fun apply_move :: "heap \<Rightarrow> move_op \<Rightarrow> heap option" where
  "apply_move h (Move_To src dst a) = to_store h src dst a"
| "apply_move h (Move_New src a) = move_to_new h src a"

fun apply_moves :: "heap \<Rightarrow> move_op list \<Rightarrow> heap option" where
  "apply_moves h [] = Some h"
| "apply_moves h (m # ms) = (case apply_move h m of None \<Rightarrow> None | Some h' \<Rightarrow> apply_moves h' ms)"

definition total_amount :: "heap \<Rightarrow> int" where
  "total_amount h = sum_list (map amount_of h)"

text \<open>Two stores of asset 3, holding 100 and 5.\<close>

definition two_stores :: heap where
  "two_stores =
     [unchecked_create \<lparr>amount = 100, asset_id = 3\<rparr>, unchecked_create \<lparr>amount = 5, asset_id = 3\<rparr>]"

section \<open>Tap requirement states\<close>

text \<open>
  Modelled from the spec: the declaration of \<^verbatim>\<open>requirement_states\<close> is outside the sources. It
  is an ordered map keyed by (tap index, sub-index) pairs, ordered lexicographically: here a
  list of entries in strictly ascending key order. The indices are unsigned. An iterator
  is the list of the entries from its position on.
\<close>

type_synonym 'v requirement_states = "((index_type \<times> index_type) \<times> 'v) list"

definition ordered_map :: "'v requirement_states \<Rightarrow> bool" where
  "ordered_map m = sorted_wrt (<) (map fst m)"

text \<open>\<^verbatim>\<open>lower_bound\<close>: the entries before the first key not less than \<open>k\<close>, and those from it on.\<close>

definition lower_bound :: "index_type \<times> index_type \<Rightarrow> 'v requirement_states \<Rightarrow> 'v requirement_states \<times> 'v requirement_states" where
  "lower_bound k m = (takeWhile (\<lambda>e. fst e < k) m, dropWhile (\<lambda>e. fst e < k) m)"

text \<open>The loop: erase at the iterator while it is not at the end and its key has the tap.\<close>

fun erase_tap_entries :: "index_type \<Rightarrow> 'v requirement_states \<Rightarrow> 'v requirement_states" where
  "erase_tap_entries tap_ID [] = []"
| "erase_tap_entries tap_ID (e # es) =
     (if fst (fst e) = tap_ID then erase_tap_entries tap_ID es else e # es)"

definition clear_tap_state :: "index_type \<Rightarrow> 'v requirement_states \<Rightarrow> 'v requirement_states" where
  "clear_tap_state tap_ID m =
     (case lower_bound (tap_ID, 0) m of (before, itr) \<Rightarrow> before @ erase_tap_entries tap_ID itr)"


section \<open>Facts about the lookups\<close>

lemmas lookup_defs =
  lookup_tank_def lookup_attachment_def get_attachment_asset_def get_attachment_sink_def

lemmas example_defs =
  on_current_tank_def on_tank_def tank_back_to_self_def looping_tank_def looping_utils_def
  two_hop_utils_def cross_tank_utils_def remote_tank_def via_remote_utils_def
  other_tank_def two_tank_utils_def

lemmas chain_eval =
  get_sink_chain_def sink_chain_loop.simps check_asset_def resolved_id_def followed_tank_def

lemma no_lookup_function_tank:
  "get_tank utils = None \<Longrightarrow> lookup_tank utils (Some t) = lookup_failed need_lookup_function"
  by (simp add: lookup_tank_def)

lemma no_lookup_function_sink:
  "get_tank utils = None \<Longrightarrow> tank_id a \<noteq> None \<Longrightarrow>
   get_attachment_sink utils a = attachment_sink_failed need_lookup_function"
  by (auto simp: get_attachment_sink_def lookup_attachment_def lookup_tank_def)

lemma no_lookup_function_asset:
  "get_tank utils = None \<Longrightarrow> tank_id a \<noteq> None \<Longrightarrow>
   get_attachment_asset utils a = attachment_asset_failed need_lookup_function"
  by (auto simp: get_attachment_asset_def lookup_attachment_def lookup_tank_def)

text \<open>
  Claim C7. A failure of \<^verbatim>\<open>lookup_tank\<close> on the tank of an attachment address is the result of
  \<^verbatim>\<open>lookup_attachment\<close>, unchanged; a failure of \<^verbatim>\<open>lookup_attachment\<close> is the result of
  \<^verbatim>\<open>get_attachment_asset\<close> and of \<^verbatim>\<open>get_attachment_sink\<close>, unchanged (the same variant with
  the same offending id).
\<close>

theorem lookup_errors_retagged:
  "(lookup_tank utils (tank_id aid) = lookup_failed e \<longrightarrow> lookup_attachment utils aid = lookup_failed e) \<and>
   (lookup_attachment utils aid = lookup_failed e' \<longrightarrow>
      get_attachment_asset utils aid = attachment_asset_failed e' \<and>
      get_attachment_sink utils aid = attachment_sink_failed e')"
  by (simp add: lookup_attachment_def get_attachment_asset_def get_attachment_sink_def)

text \<open>
  The statement of C7 at two inputs: an address on tank 7 with no lookup function, and an
  address on tank 6, which the lookup function of the looping tank does not know.
\<close>

theorem lookup_errors_retagged_witness:
  "lookup_tank cross_tank_utils (tank_id (on_tank 7 0)) = lookup_failed need_lookup_function \<and>
   lookup_attachment cross_tank_utils (on_tank 7 0) = lookup_failed need_lookup_function \<and>
   get_attachment_asset cross_tank_utils (on_tank 7 0) = attachment_asset_failed need_lookup_function \<and>
   get_attachment_sink cross_tank_utils (on_tank 7 0) = attachment_sink_failed need_lookup_function \<and>
   lookup_tank looping_utils (tank_id (on_tank 6 0)) = lookup_failed (nonexistent_object (Tank_Object 6)) \<and>
   lookup_attachment looping_utils (on_tank 6 0) = lookup_failed (nonexistent_object (Tank_Object 6)) \<and>
   get_attachment_asset looping_utils (on_tank 6 0) = attachment_asset_failed (nonexistent_object (Tank_Object 6)) \<and>
   get_attachment_sink looping_utils (on_tank 6 0) = attachment_sink_failed (nonexistent_object (Tank_Object 6))"
proof -
  have a: "lookup_tank cross_tank_utils (tank_id (on_tank 7 0)) = lookup_failed need_lookup_function"
    by (simp add: lookup_tank_def example_defs)
  have b: "lookup_tank looping_utils (tank_id (on_tank 6 0)) = lookup_failed (nonexistent_object (Tank_Object 6))"
    by (simp add: lookup_tank_def example_defs)
  from a b lookup_errors_retagged [of cross_tank_utils "on_tank 7 0" need_lookup_function need_lookup_function]
    lookup_errors_retagged [of looping_utils "on_tank 6 0" "nonexistent_object (Tank_Object 6)"
      "nonexistent_object (Tank_Object 6)"]
  show ?thesis by simp
qed

text \<open>
  Claim C8. \<^verbatim>\<open>get_sink_asset\<close> by sink variant, down to what the lookup state holds.
  \<^verbatim>\<open>same_tank\<close> yields the asset of the tank in scope and an account yields \<^verbatim>\<open>any_asset\<close>. A tank
  sink yields \<^verbatim>\<open>need_lookup_function\<close> when there is no lookup function, \<^verbatim>\<open>nonexistent_object\<close>
  with the tank's id when the function does not find the tank, and otherwise the asset of
  the tank found. An attachment sink is read on the tank in scope when its address names no
  tank, and otherwise on the tank the lookup function finds for the address, with the same
  two failures; on that tank it yields \<^verbatim>\<open>nonexistent_object\<close> with the address when the tank
  has no such attachment, the asset the attachment receives, or \<^verbatim>\<open>no_asset\<close> with the address
  when it declares none. In both cases a failure of \<^verbatim>\<open>lookup_tank\<close> or of \<^verbatim>\<open>lookup_attachment\<close>
  is the result, unchanged.
\<close>

theorem get_sink_asset_dispatch:
  "get_sink_asset utils Same_Tank = sink_receives (asset_type (current_tank utils)) \<and>
   get_sink_asset utils (Account_Sink acct) = any_asset \<and>
   get_sink_asset utils (Tank_Sink tid) =
     (case get_tank utils of
        None \<Rightarrow> sink_asset_failed need_lookup_function
      | Some f \<Rightarrow>
          (case f tid of
             None \<Rightarrow> sink_asset_failed (nonexistent_object (Tank_Object tid))
           | Some t \<Rightarrow> sink_receives (asset_type t))) \<and>
   get_sink_asset utils (Attachment_Sink aid) =
     (let on_tank_found = (\<lambda>t.
            case attachments t (attachment_id aid) of
              None \<Rightarrow> sink_asset_failed (nonexistent_object (Attachment_Object aid))
            | Some a \<Rightarrow> (case receives_asset a of Some x \<Rightarrow> sink_receives x | None \<Rightarrow> no_asset aid))
      in case tank_id aid of
           None \<Rightarrow> on_tank_found (current_tank utils)
         | Some i \<Rightarrow>
             (case get_tank utils of
                None \<Rightarrow> sink_asset_failed need_lookup_function
              | Some f \<Rightarrow>
                  (case f i of
                     None \<Rightarrow> sink_asset_failed (nonexistent_object (Tank_Object i))
                   | Some t \<Rightarrow> on_tank_found t))) \<and>
   get_sink_asset utils (Tank_Sink tid) =
     (case lookup_tank utils (Some tid) of
        lookup_ok t \<Rightarrow> sink_receives (asset_type t)
      | lookup_failed e \<Rightarrow> sink_asset_failed e) \<and>
   get_sink_asset utils (Attachment_Sink aid) =
     (case lookup_attachment utils aid of
        lookup_failed e \<Rightarrow> sink_asset_failed e
      | lookup_ok a \<Rightarrow> (case receives_asset a of Some t \<Rightarrow> sink_receives t | None \<Rightarrow> no_asset aid))"
proof -
  have tank: "get_sink_asset utils (Tank_Sink tid) =
     (case get_tank utils of
        None \<Rightarrow> sink_asset_failed need_lookup_function
      | Some f \<Rightarrow>
          (case f tid of
             None \<Rightarrow> sink_asset_failed (nonexistent_object (Tank_Object tid))
           | Some t \<Rightarrow> sink_receives (asset_type t)))"
    by (simp add: lookup_tank_def split: option.splits)
  have attachment: "get_sink_asset utils (Attachment_Sink aid) =
     (let on_tank_found = (\<lambda>t.
            case attachments t (attachment_id aid) of
              None \<Rightarrow> sink_asset_failed (nonexistent_object (Attachment_Object aid))
            | Some a \<Rightarrow> (case receives_asset a of Some x \<Rightarrow> sink_receives x | None \<Rightarrow> no_asset aid))
      in case tank_id aid of
           None \<Rightarrow> on_tank_found (current_tank utils)
         | Some i \<Rightarrow>
             (case get_tank utils of
                None \<Rightarrow> sink_asset_failed need_lookup_function
              | Some f \<Rightarrow>
                  (case f i of
                     None \<Rightarrow> sink_asset_failed (nonexistent_object (Tank_Object i))
                   | Some t \<Rightarrow> on_tank_found t)))"
    by (simp add: get_attachment_asset_def lookup_attachment_def lookup_tank_def Let_def
        split: option.splits)
  have tank_rel: "get_sink_asset utils (Tank_Sink tid) =
     (case lookup_tank utils (Some tid) of
        lookup_ok t \<Rightarrow> sink_receives (asset_type t)
      | lookup_failed e \<Rightarrow> sink_asset_failed e)"
    by (simp split: lookup_result.splits)
  have attachment_rel: "get_sink_asset utils (Attachment_Sink aid) =
     (case lookup_attachment utils aid of
        lookup_failed e \<Rightarrow> sink_asset_failed e
      | lookup_ok a \<Rightarrow> (case receives_asset a of Some t \<Rightarrow> sink_receives t | None \<Rightarrow> no_asset aid))"
    by (simp add: get_attachment_asset_def split: lookup_result.splits option.splits)
  from tank attachment tank_rel attachment_rel show ?thesis by simp
qed

text \<open>
  The statement of C8 at concrete sinks. With the lookup function that knows tank 7: the
  tank in scope (asset 1), an account, tank 7 (asset 2), the unknown tank 8, attachment 0 of
  the tank in scope (asset 4) and of tank 7 (asset 5), attachment 1 of the tank in scope (no
  asset declared), the missing attachment 3 of tank 7, and an attachment of the unknown tank
  8. With no lookup function: tank 7 and an attachment of tank 7.
\<close>

theorem get_sink_asset_dispatch_witness:
  "get_sink_asset two_tank_utils Same_Tank = sink_receives 1 \<and>
   get_sink_asset two_tank_utils (Account_Sink 9) = any_asset \<and>
   get_sink_asset two_tank_utils (Tank_Sink 7) = sink_receives 2 \<and>
   get_sink_asset two_tank_utils (Tank_Sink 8) = sink_asset_failed (nonexistent_object (Tank_Object 8)) \<and>
   get_sink_asset two_tank_utils (Attachment_Sink (on_current_tank 0)) = sink_receives 4 \<and>
   get_sink_asset two_tank_utils (Attachment_Sink (on_tank 7 0)) = sink_receives 5 \<and>
   get_sink_asset two_tank_utils (Attachment_Sink (on_current_tank 1)) = no_asset (on_current_tank 1) \<and>
   get_sink_asset two_tank_utils (Attachment_Sink (on_tank 7 3)) =
     sink_asset_failed (nonexistent_object (Attachment_Object (on_tank 7 3))) \<and>
   get_sink_asset two_tank_utils (Attachment_Sink (on_tank 8 0)) =
     sink_asset_failed (nonexistent_object (Tank_Object 8)) \<and>
   get_sink_asset cross_tank_utils (Tank_Sink 7) = sink_asset_failed need_lookup_function \<and>
   get_sink_asset cross_tank_utils (Attachment_Sink (on_tank 7 0)) = sink_asset_failed need_lookup_function"
proof -
  have known: "get_tank two_tank_utils = Some (\<lambda>i. if i = 7 then Some other_tank else None)"
    and scope: "asset_type (current_tank two_tank_utils) = 1"
    and att: "attachments (current_tank two_tank_utils) =
      [0 \<mapsto> \<lparr>receives_asset = Some 4, output_sink = Some (Account_Sink 9)\<rparr>,
       1 \<mapsto> \<lparr>receives_asset = None, output_sink = None\<rparr>]"
    and absent: "get_tank cross_tank_utils = None"
    by (simp_all add: two_tank_utils_def cross_tank_utils_def)
  note sinks_7_0 = get_sink_asset_dispatch [of two_tank_utils 9 7 "on_tank 7 0"]
  note sinks_8_0 = get_sink_asset_dispatch [of two_tank_utils 9 8 "on_tank 8 0"]
  note sinks_7_3 = get_sink_asset_dispatch [of two_tank_utils 9 7 "on_tank 7 3"]
  note sinks_c_0 = get_sink_asset_dispatch [of two_tank_utils 9 7 "on_current_tank 0"]
  note sinks_c_1 = get_sink_asset_dispatch [of two_tank_utils 9 7 "on_current_tank 1"]
  note sinks_none = get_sink_asset_dispatch [of cross_tank_utils 9 7 "on_tank 7 0"]
  have "get_sink_asset two_tank_utils Same_Tank = sink_receives 1"
    and "get_sink_asset two_tank_utils (Account_Sink 9) = any_asset"
    using sinks_7_0 scope by simp_all
  moreover have "get_sink_asset two_tank_utils (Tank_Sink 7) = sink_receives 2"
    and "get_sink_asset two_tank_utils (Attachment_Sink (on_tank 7 0)) = sink_receives 5"
    using sinks_7_0 [THEN conjunct2, THEN conjunct2] known
    by (simp_all add: other_tank_def on_tank_def Let_def)
  moreover have "get_sink_asset two_tank_utils (Tank_Sink 8) = sink_asset_failed (nonexistent_object (Tank_Object 8))"
    and "get_sink_asset two_tank_utils (Attachment_Sink (on_tank 8 0)) =
      sink_asset_failed (nonexistent_object (Tank_Object 8))"
    using sinks_8_0 [THEN conjunct2, THEN conjunct2] known
    by (simp_all add: on_tank_def Let_def)
  moreover have "get_sink_asset two_tank_utils (Attachment_Sink (on_tank 7 3)) =
      sink_asset_failed (nonexistent_object (Attachment_Object (on_tank 7 3)))"
    using sinks_7_3 [THEN conjunct2, THEN conjunct2, THEN conjunct2] known
    by (simp add: other_tank_def on_tank_def Let_def)
  moreover have "get_sink_asset two_tank_utils (Attachment_Sink (on_current_tank 0)) = sink_receives 4"
    using sinks_c_0 [THEN conjunct2, THEN conjunct2, THEN conjunct2] att
    by (simp add: on_current_tank_def Let_def)
  moreover have "get_sink_asset two_tank_utils (Attachment_Sink (on_current_tank 1)) = no_asset (on_current_tank 1)"
    using sinks_c_1 [THEN conjunct2, THEN conjunct2, THEN conjunct2] att
    by (simp add: on_current_tank_def Let_def)
  moreover have "get_sink_asset cross_tank_utils (Tank_Sink 7) = sink_asset_failed need_lookup_function"
    and "get_sink_asset cross_tank_utils (Attachment_Sink (on_tank 7 0)) = sink_asset_failed need_lookup_function"
    using sinks_none [THEN conjunct2, THEN conjunct2] absent
    by (simp_all add: on_tank_def Let_def)
  ultimately show ?thesis by simp
qed

section \<open>Facts about the walk\<close>

lemma check_asset_not_ok: "check_asset utils req s \<noteq> Some (chain_ok c)"
  by (simp add: check_asset_def split: option.splits sink_asset.splits lookup_error.splits)

lemma check_asset_names_sink:
  "check_asset utils req s = Some (chain_bad_sink (bad_sink reason x)) \<Longrightarrow> x = s"
  by (auto simp: check_asset_def split: option.splits sink_asset.splits lookup_error.splits if_splits)

lemma check_asset_wrong:
  "lookup_attachment utils b = lookup_ok att \<Longrightarrow> receives_asset att = Some x \<Longrightarrow> x \<noteq> y \<Longrightarrow>
   check_asset utils (Some y) (Attachment_Sink b) =
     Some (chain_bad_sink (bad_sink receives_wrong_asset (Attachment_Sink b)))"
  by (simp add: check_asset_def get_attachment_asset_def)

subsection \<open>Single iterations\<close>

lemma loop_step:
  assumes "get_attachment_sink utils (resolved_id ctx a) = attachment_sink_ok nxt"
    and "check_asset utils req (Attachment_Sink a) = None"
    and "length pre < m"
  shows "sink_chain_loop utils m req s \<lparr>sinks = pre @ [Attachment_Sink a], final_sink_tank = ctx\<rparr> =
         sink_chain_loop utils m req (Attachment_Sink a)
           \<lparr>sinks = pre @ [Attachment_Sink a, nxt], final_sink_tank = followed_tank ctx a\<rparr>"
  using assms by (subst sink_chain_loop.simps) simp

lemma loop_fails_at_check:
  assumes "get_attachment_sink utils (resolved_id ctx b) = attachment_sink_ok t"
    and "check_asset utils req (Attachment_Sink b) = Some r"
    and "length pre < n"
  shows "sink_chain_loop utils n req s \<lparr>sinks = pre @ [Attachment_Sink b], final_sink_tank = ctx\<rparr> = Some r"
  using assms by (subst sink_chain_loop.simps) simp

lemma loop_fails_at_lookup:
  assumes "get_attachment_sink utils (resolved_id ctx b) = attachment_sink_failed e"
    and "length pre < n"
  shows "sink_chain_loop utils n req s \<lparr>sinks = pre @ [Attachment_Sink b], final_sink_tank = ctx\<rparr> =
         Some (chain_failed e)"
  using assms by (subst sink_chain_loop.simps) simp

subsection \<open>Paths\<close>

lemma tank_after_Nil: "tank_after ctx [] = ctx"
  by (simp add: tank_after_def)

lemma tank_after_Cons: "tank_after ctx (a # as) = tank_after (followed_tank ctx a) as"
  by (simp add: tank_after_def)





lemma follows_snoc:
  "follows utils ctx (pre @ [b]) t =
     (follows utils ctx pre (Attachment_Sink b) \<and>
      get_attachment_sink utils (resolved_id (tank_after ctx pre) b) = attachment_sink_ok t)"
  by (induction utils ctx pre "Attachment_Sink b" rule: follows.induct)
     (auto simp: tank_after_Nil tank_after_Cons)


text \<open>
  Following a path whose sinks all pass the check, within the length bound: the loop
  arrives at the state that holds the whole path and what its last attachment forwards to.
\<close>

lemma loop_walk:
  assumes "follows utils ctx (a # as) t"
    and "list_all (\<lambda>x. check_asset utils req (Attachment_Sink x) = None) (a # as)"
    and "length pre + length (a # as) \<le> m"
  shows "sink_chain_loop utils m req s \<lparr>sinks = pre @ [Attachment_Sink a], final_sink_tank = ctx\<rparr> =
         sink_chain_loop utils m req (Attachment_Sink (last (a # as)))
           \<lparr>sinks = pre @ map Attachment_Sink (a # as) @ [t], final_sink_tank = tank_after ctx (a # as)\<rparr>"
  using assms
proof (induction as arbitrary: a pre ctx s)
  case Nil
  then show ?case
    by (simp add: loop_step tank_after_Nil tank_after_Cons)
next
  case (Cons b bs)
  have step: "sink_chain_loop utils m req s \<lparr>sinks = pre @ [Attachment_Sink a], final_sink_tank = ctx\<rparr> =
      sink_chain_loop utils m req (Attachment_Sink a)
        \<lparr>sinks = (pre @ [Attachment_Sink a]) @ [Attachment_Sink b], final_sink_tank = followed_tank ctx a\<rparr>"
    using Cons.prems loop_step [of utils ctx a "Attachment_Sink b" req pre m s] by simp
  have "sink_chain_loop utils m req (Attachment_Sink a)
        \<lparr>sinks = (pre @ [Attachment_Sink a]) @ [Attachment_Sink b], final_sink_tank = followed_tank ctx a\<rparr> =
      sink_chain_loop utils m req (Attachment_Sink (last (b # bs)))
        \<lparr>sinks = (pre @ [Attachment_Sink a]) @ map Attachment_Sink (b # bs) @ [t],
         final_sink_tank = tank_after (followed_tank ctx a) (b # bs)\<rparr>"
    using Cons.prems by (intro Cons.IH) auto
  with step show ?case by (simp add: tank_after_Cons)
qed

lemma get_sink_chain_walk:
  assumes "follows utils None (a # as) t"
    and "list_all (\<lambda>x. check_asset utils req (Attachment_Sink x) = None) (a # as)"
    and "length (a # as) \<le> n"
  shows "get_sink_chain utils (Attachment_Sink a) n req =
         sink_chain_loop utils n req (Attachment_Sink (last (a # as)))
           \<lparr>sinks = map Attachment_Sink (a # as) @ [t], final_sink_tank = tank_after None (a # as)\<rparr>"
proof -
  have "sink_chain_loop utils n req (Attachment_Sink a) \<lparr>sinks = [] @ [Attachment_Sink a], final_sink_tank = None\<rparr> =
        sink_chain_loop utils n req (Attachment_Sink (last (a # as)))
           \<lparr>sinks = [] @ map Attachment_Sink (a # as) @ [t], final_sink_tank = tank_after None (a # as)\<rparr>"
    using assms by (intro loop_walk) auto
  with assms(2) show ?thesis by (simp add: get_sink_chain_def)
qed

subsection \<open>Cycles\<close>







subsection \<open>The shape of a returned chain\<close>

lemma loop_shape:
  "sink_chain_loop utils m req s chain = Some (chain_ok c) \<Longrightarrow>
   sinks chain \<noteq> [] \<Longrightarrow> list_all (\<lambda>x. \<not> is_terminal_sink x) (butlast (sinks chain)) \<Longrightarrow>
   length (sinks chain) \<le> Suc m \<Longrightarrow>
   hd (sinks c) = hd (sinks chain) \<and> sinks c \<noteq> [] \<and> is_terminal_sink (last (sinks c)) \<and>
   list_all (\<lambda>x. \<not> is_terminal_sink x) (butlast (sinks c)) \<and> length (sinks c) \<le> Suc m"
proof (induction utils m req s chain rule: sink_chain_loop.induct)
  case (1 utils m req s chain)
  show ?case
  proof (cases "is_terminal_sink (last (sinks chain))")
    case True
    with "1.prems" show ?thesis
      by (subst (asm) sink_chain_loop.simps) (auto simp: check_asset_not_ok split: option.splits)
  next
    case False
    with "1.prems"(1) obtain a nxt where
      len: "\<not> length (sinks chain) > m"
      and a: "get_attachment_id_type (last (sinks chain)) = Some a"
      and nxt: "get_attachment_sink utils (resolved_id (final_sink_tank chain) a) = attachment_sink_ok nxt"
      and chk: "check_asset utils req (last (sinks chain)) = None"
      and rec: "sink_chain_loop utils m req (last (sinks chain))
          \<lparr>sinks = sinks chain @ [nxt], final_sink_tank = followed_tank (final_sink_tank chain) a\<rparr> = Some (chain_ok c)"
      by (subst (asm) sink_chain_loop.simps)
         (auto simp: check_asset_not_ok split: if_splits option.splits attachment_sink_result.splits)
    have "list_all (\<lambda>x. \<not> is_terminal_sink x) (sinks chain)"
      using "1.prems"(2,3) False
      by (subst append_butlast_last_id [symmetric]) (simp_all del: append_butlast_last_id)
    with "1.IH" [OF False len a nxt chk] rec len "1.prems"(2)
    show ?thesis by (simp add: butlast_append)
  qed
qed

lemma get_sink_chain_shape_lemma:
  assumes "get_sink_chain utils s n req = Some (chain_ok c)"
  shows "hd (sinks c) = s \<and> sinks c \<noteq> [] \<and> is_terminal_sink (last (sinks c)) \<and>
     list_all (\<lambda>x. \<not> is_terminal_sink x) (butlast (sinks c)) \<and> length (sinks c) \<le> n + 1"
proof -
  from assms have "sink_chain_loop utils n req s \<lparr>sinks = [s], final_sink_tank = None\<rparr> = Some (chain_ok c)"
    by (auto simp: get_sink_chain_def check_asset_not_ok split: option.splits)
  from loop_shape [OF this] show ?thesis by simp
qed

lemma two_hop_chain:
  "get_sink_chain two_hop_utils (Attachment_Sink (on_current_tank 0)) 2 None =
     Some (chain_ok \<lparr>sinks = [Attachment_Sink (on_current_tank 0), Attachment_Sink (on_current_tank 1),
                              Account_Sink 9], final_sink_tank = None\<rparr>)"
  by (simp add: chain_eval lookup_defs example_defs)

text \<open>
  Claim C10. A chain that \<^verbatim>\<open>get_sink_chain\<close> returns begins with the start sink, ends with a
  terminal sink, has only non-terminal sinks before the last one, and has at most
  \<open>max_chain_length + 1\<close> sinks. The bound is met: with maximum length 2 the walk over the two
  attachments that lead to account 9 returns a chain of 3 sinks.
\<close>

theorem get_sink_chain_shape:
  "(get_sink_chain utils s n req = Some (chain_ok c) \<longrightarrow>
      hd (sinks c) = s \<and> sinks c \<noteq> [] \<and> is_terminal_sink (last (sinks c)) \<and>
      list_all (\<lambda>x. \<not> is_terminal_sink x) (butlast (sinks c)) \<and> length (sinks c) \<le> n + 1) \<and>
   (\<exists>c'. get_sink_chain two_hop_utils (Attachment_Sink (on_current_tank 0)) 2 None = Some (chain_ok c') \<and>
      length (sinks c') = 2 + 1)"
  using get_sink_chain_shape_lemma [of utils s n req c] two_hop_chain by simp

text \<open>The statement of C10 on the chain to account 9.\<close>

theorem get_sink_chain_shape_witness:
  "get_sink_chain two_hop_utils (Attachment_Sink (on_current_tank 0)) 2 None =
     Some (chain_ok \<lparr>sinks = [Attachment_Sink (on_current_tank 0), Attachment_Sink (on_current_tank 1),
                              Account_Sink 9], final_sink_tank = None\<rparr>) \<and>
   hd [Attachment_Sink (on_current_tank 0), Attachment_Sink (on_current_tank 1), Account_Sink 9] =
     Attachment_Sink (on_current_tank 0) \<and>
   is_terminal_sink (last [Attachment_Sink (on_current_tank 0), Attachment_Sink (on_current_tank 1), Account_Sink 9]) \<and>
   list_all (\<lambda>x. \<not> is_terminal_sink x)
     (butlast [Attachment_Sink (on_current_tank 0), Attachment_Sink (on_current_tank 1), Account_Sink 9]) \<and>
   length [Attachment_Sink (on_current_tank 0), Attachment_Sink (on_current_tank 1), Account_Sink 9] \<le> 2 + 1"
  using get_sink_chain_shape [of two_hop_utils "Attachment_Sink (on_current_tank 0)" 2 None
      "\<lparr>sinks = [Attachment_Sink (on_current_tank 0), Attachment_Sink (on_current_tank 1),
                              Account_Sink 9], final_sink_tank = None\<rparr>"] two_hop_chain
  by simp

subsection \<open>The walk always returns\<close>

lemma loop_returns:
  "sinks chain \<noteq> [] \<Longrightarrow> \<exists>r. sink_chain_loop utils m req s chain = Some r"
proof (induction utils m req s chain rule: sink_chain_loop.induct)
  case (1 utils m req s chain)
  show ?case
  proof (cases "is_terminal_sink (last (sinks chain)) \<or> length (sinks chain) > m")
    case True
    then show ?thesis by (subst sink_chain_loop.simps) (auto split: option.splits)
  next
    case False
    then obtain a where a: "last (sinks chain) = Attachment_Sink a"
      by (cases "last (sinks chain)") auto
    show ?thesis
    proof (cases "get_attachment_sink utils (resolved_id (final_sink_tank chain) a)")
      case (attachment_sink_ok nxt)
      show ?thesis
      proof (cases "check_asset utils req (last (sinks chain))")
        case None
        from "1.IH" [of a nxt] False a attachment_sink_ok None
        obtain r where "sink_chain_loop utils m req (last (sinks chain))
          \<lparr>sinks = sinks chain @ [nxt], final_sink_tank = followed_tank (final_sink_tank chain) a\<rparr> = Some r"
          by auto
        with False a attachment_sink_ok None show ?thesis
          by (subst sink_chain_loop.simps) simp
      next
        case (Some r)
        with False a attachment_sink_ok show ?thesis by (subst sink_chain_loop.simps) simp
      qed
    qed (use False a in \<open>subst sink_chain_loop.simps, simp\<close>)+
  qed
qed

text \<open>
  The variant access in the loop never throws, and the loop ends: \<^verbatim>\<open>get_sink_chain\<close> returns a
  result on every input.
\<close>

theorem get_sink_chain_returns: "\<exists>r. get_sink_chain utils s n req = Some r"
  by (cases "check_asset utils req s") (simp_all add: get_sink_chain_def loop_returns)

subsection \<open>Asset checks along the walk\<close>

text \<open>
  Claim C1. The check after the loop is made on the sink the reference \<open>s\<close> was last bound
  to, which is the last attachment followed, not the terminal sink the walk arrived at. On
  the tank of asset 1 whose attachment 0 receives asset 2 and forwards to the tank itself,
  the walk from attachment 0 with required asset 2 returns the chain that ends at the
  tank, although the check of that terminal sink against asset 2 gives
  \<^verbatim>\<open>bad_sink\<close> with \<^verbatim>\<open>receives_wrong_asset\<close>.
\<close>

theorem terminal_sink_unchecked:
  "get_sink_chain tank_back_to_self (Attachment_Sink (on_current_tank 0)) 1 (Some 2) =
     Some (chain_ok \<lparr>sinks = [Attachment_Sink (on_current_tank 0), Same_Tank], final_sink_tank = None\<rparr>) \<and>
   get_sink_asset tank_back_to_self Same_Tank = sink_receives 1 \<and>
   check_asset tank_back_to_self (Some 2) Same_Tank =
     Some (chain_bad_sink (bad_sink receives_wrong_asset Same_Tank))"
  by (simp add: chain_eval lookup_defs example_defs)

lemma loop_bad_sink_not_terminal:
  "sink_chain_loop utils n req s chain = Some (chain_bad_sink (bad_sink reason x)) \<Longrightarrow>
   check_asset utils req s = None \<Longrightarrow> \<not> is_terminal_sink x"
proof (induction utils n req s chain rule: sink_chain_loop.induct)
  case (1 utils n req s chain)
  show ?case
  proof (cases "is_terminal_sink (last (sinks chain)) \<or> length (sinks chain) > n")
    case True
    with "1.prems" show ?thesis by (subst (asm) sink_chain_loop.simps) (auto split: if_splits)
  next
    case False
    then obtain a where a: "last (sinks chain) = Attachment_Sink a"
      by (cases "last (sinks chain)") auto
    show ?thesis
    proof (cases "get_attachment_sink utils (resolved_id (final_sink_tank chain) a)")
      case (attachment_sink_ok nxt)
      show ?thesis
      proof (cases "check_asset utils req (last (sinks chain))")
        case None
        with "1.prems"(1) False a attachment_sink_ok
        have "sink_chain_loop utils n req (last (sinks chain))
          \<lparr>sinks = sinks chain @ [nxt], final_sink_tank = followed_tank (final_sink_tank chain) a\<rparr> =
          Some (chain_bad_sink (bad_sink reason x))"
          by (subst (asm) sink_chain_loop.simps) simp
        with "1.IH" [of a nxt] False a attachment_sink_ok None show ?thesis by simp
      next
        case (Some r)
        with "1.prems"(1) False a attachment_sink_ok
        have "check_asset utils req (Attachment_Sink a) = Some (chain_bad_sink (bad_sink reason x))"
          by (subst (asm) sink_chain_loop.simps) simp
        from check_asset_names_sink [OF this] show ?thesis by simp
      qed
    next
      case (attachment_bad_sink b)
      with "1.prems"(1) False a show ?thesis
        by (subst (asm) sink_chain_loop.simps)
           (auto simp: get_attachment_sink_def split: lookup_result.splits option.splits)
    next
      case (attachment_sink_failed e)
      with "1.prems"(1) False a show ?thesis
        by (subst (asm) sink_chain_loop.simps) simp
    qed
  qed
qed

text \<open>
  A \<^verbatim>\<open>bad_sink\<close> result names the start sink or an attachment: no terminal sink that the walk
  arrives at is ever rejected.
\<close>

theorem bad_sink_never_names_reached_terminal:
  "get_sink_chain utils s n req = Some (chain_bad_sink (bad_sink reason x)) \<Longrightarrow>
   x = s \<or> \<not> is_terminal_sink x"
  by (cases "check_asset utils req s")
     (auto simp: get_sink_chain_def dest: loop_bad_sink_not_terminal check_asset_names_sink)

text \<open>
  On the tank whose attachment 1 receives asset 3, the walk with required asset 2 rejects
  attachment 1, which is neither the start sink nor terminal.
\<close>

theorem bad_sink_never_names_reached_terminal_witness:
  "get_sink_chain two_hop_utils (Attachment_Sink (on_current_tank 0)) 2 (Some 2) =
     Some (chain_bad_sink (bad_sink receives_wrong_asset (Attachment_Sink (on_current_tank 1)))) \<and>
   \<not> is_terminal_sink (Attachment_Sink (on_current_tank 1))"
proof -
  have r: "get_sink_chain two_hop_utils (Attachment_Sink (on_current_tank 0)) 2 (Some 2) =
     Some (chain_bad_sink (bad_sink receives_wrong_asset (Attachment_Sink (on_current_tank 1))))"
    by (simp add: chain_eval lookup_defs example_defs)
  from bad_sink_never_names_reached_terminal [OF r] r show ?thesis
    by (simp add: example_defs)
qed

text \<open>
  Claim C6, as the code has it. Let the walk with required asset \<open>y\<close> follow the attachments
  \<open>pre\<close> and then \<open>b\<close>, where every attachment of \<open>pre\<close> passes the check, the address of \<open>b\<close>
  reads the same on the tank in scope as on the tank the chain is on, and \<open>b\<close> declares that
  it receives \<open>x\<close>, different from \<open>y\<close>. If fewer than \<open>max_chain_length\<close> sinks precede \<open>b\<close> in
  the chain, the result is \<^verbatim>\<open>bad_sink\<close> with \<^verbatim>\<open>receives_wrong_asset\<close> naming \<open>b\<close>, whatever \<open>b\<close>
  forwards to, an account included.
\<close>

theorem wrong_asset_stops_walk:
  assumes "follows utils None (pre @ [b]) t"
    and "list_all (\<lambda>x. check_asset utils (Some y) (Attachment_Sink x) = None) pre"
    and "resolved_id (tank_after None pre) b = b"
    and "lookup_attachment utils b = lookup_ok att" and "receives_asset att = Some x" and "x \<noteq> y"
    and "length pre < n"
  shows "get_sink_chain utils (Attachment_Sink (hd (pre @ [b]))) n (Some y) =
         Some (chain_bad_sink (bad_sink receives_wrong_asset (Attachment_Sink b)))"
proof (cases pre)
  case Nil
  with check_asset_wrong [OF assms(4,5,6)] show ?thesis by (simp add: get_sink_chain_def)
next
  case (Cons a as)
  from assms(1) follows_snoc [of utils None pre b t]
  have path: "follows utils None (a # as) (Attachment_Sink b)"
    and out: "get_attachment_sink utils (resolved_id (tank_after None (a # as)) b) = attachment_sink_ok t"
    by (simp_all add: Cons)
  have "get_sink_chain utils (Attachment_Sink a) n (Some y) =
      sink_chain_loop utils n (Some y) (Attachment_Sink (last (a # as)))
        \<lparr>sinks = map Attachment_Sink (a # as) @ [Attachment_Sink b], final_sink_tank = tank_after None (a # as)\<rparr>"
    using path assms(2,7) by (intro get_sink_chain_walk) (simp_all add: Cons)
  also have "\<dots> = Some (chain_bad_sink (bad_sink receives_wrong_asset (Attachment_Sink b)))"
    using out assms(7) check_asset_wrong [OF assms(4,5,6)]
    by (intro loop_fails_at_check [where t = t]) (simp_all add: Cons)
  finally show ?thesis by (simp add: Cons)
qed

text \<open>
  The amended C6 on the tank whose attachment 0 (asset 2) forwards to attachment 1 (asset 3),
  which forwards to account 9: required asset 2, maximum length 2.
\<close>

theorem wrong_asset_stops_walk_witness:
  "follows two_hop_utils None ([on_current_tank 0] @ [on_current_tank 1]) (Account_Sink 9) \<and>
   list_all (\<lambda>x. check_asset two_hop_utils (Some 2) (Attachment_Sink x) = None) [on_current_tank 0] \<and>
   resolved_id (tank_after None [on_current_tank 0]) (on_current_tank 1) = on_current_tank 1 \<and>
   lookup_attachment two_hop_utils (on_current_tank 1) =
     lookup_ok \<lparr>receives_asset = Some 3, output_sink = Some (Account_Sink 9)\<rparr> \<and>
   (3::nat) \<noteq> 2 \<and> length [on_current_tank 0] < (2::nat) \<and>
   get_sink_chain two_hop_utils (Attachment_Sink (on_current_tank 0)) 2 (Some 2) =
     Some (chain_bad_sink (bad_sink receives_wrong_asset (Attachment_Sink (on_current_tank 1))))"
proof -
  have f: "follows two_hop_utils None ([on_current_tank 0] @ [on_current_tank 1]) (Account_Sink 9)"
    by (simp add: lookup_defs example_defs resolved_id_def followed_tank_def)
  have c: "list_all (\<lambda>x. check_asset two_hop_utils (Some 2) (Attachment_Sink x) = None) [on_current_tank 0]"
    by (simp add: check_asset_def lookup_defs example_defs)
  have r: "resolved_id (tank_after None [on_current_tank 0]) (on_current_tank 1) = on_current_tank 1"
    by (simp add: example_defs resolved_id_def followed_tank_def tank_after_def)
  have l: "lookup_attachment two_hop_utils (on_current_tank 1) =
     lookup_ok \<lparr>receives_asset = Some 3, output_sink = Some (Account_Sink 9)\<rparr>"
    by (simp add: lookup_defs example_defs)
  from wrong_asset_stops_walk [OF f c r l, of 3 2] f c r l show ?thesis by simp
qed

text \<open>
  Claim C6 as stated fails: on the same tank with maximum length 1, the chain to account 9
  passes through attachment 1, which receives asset 3 while asset 2 is required, and the
  result is \<^verbatim>\<open>exceeded_max_chain_length\<close>. Attachment 1 was appended unchecked, and the length
  test of the next iteration comes before its check.
\<close>

theorem wrong_asset_beyond_bound:
  "follows two_hop_utils None [on_current_tank 0, on_current_tank 1] (Account_Sink 9) \<and>
   get_attachment_asset two_hop_utils (on_current_tank 1) = attachment_receives 3 \<and>
   get_sink_chain two_hop_utils (Attachment_Sink (on_current_tank 0)) 1 (Some 2) =
     Some exceeded_max_chain_length"
  by (simp add: chain_eval lookup_defs example_defs)

text \<open>
  The walk reads an address that names no tank on the tank the chain has moved to, while
  the asset check reads the same address on the tank in scope. With required asset 2 the
  walk below passes through attachment 1 of tank 7, which receives asset 3, and returns the
  chain: the check looked at attachment 1 of the tank in scope, which receives asset 2.
\<close>

theorem relative_address_checked_on_current_tank:
  "get_sink_chain via_remote_utils (Attachment_Sink (on_current_tank 0)) 5 (Some 2) =
     Some (chain_ok \<lparr>sinks = [Attachment_Sink (on_current_tank 0), Attachment_Sink (on_tank 7 0),
                              Attachment_Sink (on_current_tank 1), Account_Sink 9],
                     final_sink_tank = Some 7\<rparr>) \<and>
   get_attachment_sink via_remote_utils (on_tank 7 0) = attachment_sink_ok (Attachment_Sink (on_current_tank 1)) \<and>
   get_attachment_asset via_remote_utils (on_tank 7 1) = attachment_receives 3 \<and>
   get_attachment_asset via_remote_utils (on_current_tank 1) = attachment_receives 2"
  by (simp add: chain_eval lookup_defs example_defs)

subsection \<open>Walking without a lookup function\<close>

lemma need_lookup_function_in_walk:
  assumes none: "get_tank utils = None"
    and path: "follows utils None pre (Attachment_Sink b)" and b: "tank_id b \<noteq> None"
    and chk: "list_all (\<lambda>x. check_asset utils req (Attachment_Sink x) = None) pre"
    and len: "length pre < n"
  shows "get_sink_chain utils (Attachment_Sink (hd (pre @ [b]))) n req = Some (chain_failed need_lookup_function)"
proof -
  have chk_b: "check_asset utils req (Attachment_Sink b) = None"
    using none b by (simp add: check_asset_def no_lookup_function_asset split: option.splits)
  have sink_b: "get_attachment_sink utils (resolved_id ctx b) = attachment_sink_failed need_lookup_function" for ctx
    using none b by (simp add: resolved_id_def no_lookup_function_sink)
  show ?thesis
  proof (cases pre)
    case Nil
    with loop_fails_at_lookup [OF sink_b, where pre = "[]" and n = n and ctx = None and req = req
        and s = "Attachment_Sink b"] chk_b len
    show ?thesis by (simp add: get_sink_chain_def)
  next
    case (Cons a as)
    have "get_sink_chain utils (Attachment_Sink a) n req =
      sink_chain_loop utils n req (Attachment_Sink (last (a # as)))
        \<lparr>sinks = map Attachment_Sink (a # as) @ [Attachment_Sink b], final_sink_tank = tank_after None (a # as)\<rparr>"
      using path chk len by (intro get_sink_chain_walk) (simp_all add: Cons)
    also have "\<dots> = Some (chain_failed need_lookup_function)"
      using len by (intro loop_fails_at_lookup sink_b) (simp add: Cons)
    finally show ?thesis by (simp add: Cons)
  qed
qed

text \<open>
  Claim C5, as the code has it. Without a lookup function, \<^verbatim>\<open>get_sink_asset\<close> returns
  \<^verbatim>\<open>need_lookup_function\<close> for every tank sink and for every attachment sink whose address
  names a tank. \<^verbatim>\<open>get_sink_chain\<close> returns \<^verbatim>\<open>need_lookup_function\<close> when the walk has to follow
  an attachment \<open>b\<close> whose address names a tank, reached over attachments \<open>pre\<close> that pass the
  check, with fewer than \<open>max_chain_length\<close> sinks before \<open>b\<close>. In the asset check the same
  failure counts as a pass.
\<close>

theorem need_lookup_function_propagation:
  assumes "get_tank utils = None"
  shows "get_sink_asset utils (Tank_Sink t) = sink_asset_failed need_lookup_function \<and>
   (tank_id a \<noteq> None \<longrightarrow>
      get_sink_asset utils (Attachment_Sink a) = sink_asset_failed need_lookup_function) \<and>
   (follows utils None pre (Attachment_Sink b) \<and> tank_id b \<noteq> None \<and>
    list_all (\<lambda>x. check_asset utils req (Attachment_Sink x) = None) pre \<and> length pre < n \<longrightarrow>
      get_sink_chain utils (Attachment_Sink (hd (pre @ [b]))) n req = Some (chain_failed need_lookup_function)) \<and>
   check_asset utils req (Tank_Sink t) = None \<and>
   (tank_id a \<noteq> None \<longrightarrow> check_asset utils req (Attachment_Sink a) = None)"
  using assms need_lookup_function_in_walk [OF assms, of pre b req n]
  by (auto simp: no_lookup_function_tank no_lookup_function_asset check_asset_def split: option.splits)

text \<open>
  The amended C5 on the tank whose attachment 0 forwards to attachment 0 of tank 7, with no
  lookup function.
\<close>

theorem need_lookup_function_propagation_witness:
  "get_tank cross_tank_utils = None \<and>
   get_sink_asset cross_tank_utils (Tank_Sink 7) = sink_asset_failed need_lookup_function \<and>
   tank_id (on_tank 7 0) \<noteq> None \<and>
   get_sink_asset cross_tank_utils (Attachment_Sink (on_tank 7 0)) = sink_asset_failed need_lookup_function \<and>
   follows cross_tank_utils None [on_current_tank 0] (Attachment_Sink (on_tank 7 0)) \<and>
   list_all (\<lambda>x. check_asset cross_tank_utils (Some 2) (Attachment_Sink x) = None) [on_current_tank 0] \<and>
   length [on_current_tank 0] < (2::nat) \<and>
   get_sink_chain cross_tank_utils (Attachment_Sink (on_current_tank 0)) 2 (Some 2) =
     Some (chain_failed need_lookup_function)"
proof -
  have g: "get_tank cross_tank_utils = None" by (simp add: example_defs)
  have t: "tank_id (on_tank 7 0) \<noteq> None" by (simp add: example_defs)
  have f: "follows cross_tank_utils None [on_current_tank 0] (Attachment_Sink (on_tank 7 0))"
    by (simp add: lookup_defs example_defs resolved_id_def)
  have c: "list_all (\<lambda>x. check_asset cross_tank_utils (Some 2) (Attachment_Sink x) = None) [on_current_tank 0]"
    by (simp add: check_asset_def lookup_defs example_defs)
  from need_lookup_function_propagation [OF g, of 7 "on_tank 7 0" "[on_current_tank 0]" "on_tank 7 0" "Some 2" 2]
    g t f c
  show ?thesis by simp
qed

text \<open>
  Claim C5 as stated fails: with no lookup function and required asset 2, the walk from the
  sink that is tank 7 needs the asset of tank 7, gets \<^verbatim>\<open>need_lookup_function\<close> for it, and
  returns the chain of that one sink.
\<close>

theorem need_lookup_function_swallowed:
  "get_tank cross_tank_utils = None \<and>
   get_sink_asset cross_tank_utils (Tank_Sink 7) = sink_asset_failed need_lookup_function \<and>
   get_sink_chain cross_tank_utils (Tank_Sink 7) 3 (Some 2) =
     Some (chain_ok \<lparr>sinks = [Tank_Sink 7], final_sink_tank = None\<rparr>)"
  by (simp add: chain_eval lookup_defs example_defs)

section \<open>Facts about asset stores\<close>

lemma to_store_length: "to_store h src dst a = Some h' \<Longrightarrow> length h' = length h"
  by (auto simp: to_store_def Let_def split: if_splits option.splits)

lemma to_store_source:
  "to_store h src dst a = Some h' \<Longrightarrow> src \<noteq> dst \<Longrightarrow> amount_of (h' ! src) = amount_of (h ! src) - a"
  by (auto simp: to_store_def Let_def checked_def set_amount_def amount_of_def split: if_splits option.splits)

lemma to_store_destination:
  "to_store h src dst a = Some h' \<Longrightarrow> src \<noteq> dst \<Longrightarrow> amount_of (h' ! dst) = amount_of (h ! dst) + a"
  by (auto simp: to_store_def Let_def checked_def set_amount_def amount_of_def split: if_splits option.splits)

lemma sum_list_update_int:
  fixes xs :: "int list"
  shows "i < length xs \<Longrightarrow> sum_list (xs[i := x]) = sum_list xs + x - xs ! i"
  by (induction xs arbitrary: i) (auto split: nat.splits)

lemma total_amount_update:
  "i < length h \<Longrightarrow> total_amount (h[i := st]) = total_amount h + amount_of st - amount_of (h ! i)"
  by (simp add: total_amount_def map_update sum_list_update_int)

lemma to_store_total: "to_store h src dst a = Some h' \<Longrightarrow> total_amount h' = total_amount h"
  by (auto simp: to_store_def Let_def checked_def set_amount_def total_amount_update amount_of_def nth_list_update
      split: if_splits option.splits)

lemma total_amount_new: "total_amount (h @ [empty_store]) = total_amount h"
  by (simp add: total_amount_def amount_of_def empty_store_def)

lemma apply_move_total: "apply_move h m = Some h' \<Longrightarrow> total_amount h' = total_amount h"
  by (cases m) (auto simp: move_to_new_def total_amount_new split: if_splits dest: to_store_total)

lemma apply_moves_total: "apply_moves h ms = Some h' \<Longrightarrow> total_amount h' = total_amount h"
  by (induction ms arbitrary: h) (auto split: option.splits dest: apply_move_total)

lemma move_to_new_amounts:
  assumes "move_to_new h src a = Some h'"
  shows "amount_of (h' ! src) = amount_of (h ! src) - a \<and> amount_of (h' ! length h) = a"
proof -
  from assms have src: "src < length h" and to: "to_store (h @ [empty_store]) src (length h) a = Some h'"
    by (auto simp: move_to_new_def split: if_splits)
  from src have ne: "src \<noteq> length h" by simp
  from to_store_source [OF to ne] src
  have "amount_of (h' ! src) = amount_of (h ! src) - a" by (simp add: nth_append)
  moreover from to_store_destination [OF to ne]
  have "amount_of (h' ! length h) = a" by (simp add: amount_of_def empty_store_def)
  ultimately show ?thesis by simp
qed

text \<open>
  Claim C2. Any sequence of moves that goes through leaves the sum of the amounts of all
  stores as it was. A move of \<open>a\<close> between two different stores lowers the amount of the
  source by \<open>a\<close> and raises the amount of the destination by \<open>a\<close>; the conversion of a mover to
  a new store lowers the source by \<open>a\<close> and leaves \<open>a\<close> in the new store.
\<close>

theorem asset_store_conservation:
  "(apply_moves h ms = Some h' \<longrightarrow> total_amount h' = total_amount h) \<and>
   (to_store h src dst a = Some h1 \<and> src \<noteq> dst \<longrightarrow>
      amount_of (h1 ! src) = amount_of (h ! src) - a \<and> amount_of (h1 ! dst) = amount_of (h ! dst) + a) \<and>
   (move_to_new h src a = Some h2 \<longrightarrow>
      amount_of (h2 ! src) = amount_of (h ! src) - a \<and> amount_of (h2 ! length h) = a)"
  using apply_moves_total to_store_source to_store_destination move_to_new_amounts by blast

lemmas store_eval =
  two_stores_def unchecked_create_def empty_store_def amount_of_def asset_type_of_def
  checked_def in_share_range_def set_amount_def

lemma two_stores_move:
  "to_store two_stores 0 1 30 =
     Some [unchecked_create \<lparr>amount = 70, asset_id = 3\<rparr>, unchecked_create \<lparr>amount = 35, asset_id = 3\<rparr>]"
  by (simp add: to_store_def store_eval)

lemma two_stores_move_new:
  "move_to_new two_stores 0 30 =
     Some [unchecked_create \<lparr>amount = 70, asset_id = 3\<rparr>, unchecked_create \<lparr>amount = 5, asset_id = 3\<rparr>,
           unchecked_create \<lparr>amount = 30, asset_id = 3\<rparr>]"
  by (simp add: move_to_new_def to_store_def store_eval)

lemma two_stores_moves:
  "apply_moves two_stores [Move_To 0 1 30, Move_New 1 10] =
     Some [unchecked_create \<lparr>amount = 70, asset_id = 3\<rparr>, unchecked_create \<lparr>amount = 25, asset_id = 3\<rparr>,
           unchecked_create \<lparr>amount = 10, asset_id = 3\<rparr>]"
  by (simp add: move_to_new_def to_store_def store_eval)

text \<open>
  The statement of C2 on two stores of asset 3 holding 100 and 5: a move of 30 from the
  first to the second, the same followed by a move of 10 from the second to a new store,
  and a move of 30 from the first to a new store.
\<close>

theorem asset_store_conservation_witness:
  "apply_moves two_stores [Move_To 0 1 30, Move_New 1 10] =
     Some [unchecked_create \<lparr>amount = 70, asset_id = 3\<rparr>, unchecked_create \<lparr>amount = 25, asset_id = 3\<rparr>,
           unchecked_create \<lparr>amount = 10, asset_id = 3\<rparr>] \<and>
   total_amount [unchecked_create \<lparr>amount = 70, asset_id = 3\<rparr>, unchecked_create \<lparr>amount = 25, asset_id = 3\<rparr>,
           unchecked_create \<lparr>amount = 10, asset_id = 3\<rparr>] = total_amount two_stores \<and>
   to_store two_stores 0 1 30 =
     Some [unchecked_create \<lparr>amount = 70, asset_id = 3\<rparr>, unchecked_create \<lparr>amount = 35, asset_id = 3\<rparr>] \<and>
   (0::nat) \<noteq> 1 \<and>
   amount_of ([unchecked_create \<lparr>amount = 70, asset_id = 3\<rparr>, unchecked_create \<lparr>amount = 35, asset_id = 3\<rparr>] ! 0) =
     amount_of (two_stores ! 0) - 30 \<and>
   amount_of ([unchecked_create \<lparr>amount = 70, asset_id = 3\<rparr>, unchecked_create \<lparr>amount = 35, asset_id = 3\<rparr>] ! 1) =
     amount_of (two_stores ! 1) + 30 \<and>
   move_to_new two_stores 0 30 =
     Some [unchecked_create \<lparr>amount = 70, asset_id = 3\<rparr>, unchecked_create \<lparr>amount = 5, asset_id = 3\<rparr>,
           unchecked_create \<lparr>amount = 30, asset_id = 3\<rparr>] \<and>
   amount_of ([unchecked_create \<lparr>amount = 70, asset_id = 3\<rparr>, unchecked_create \<lparr>amount = 5, asset_id = 3\<rparr>,
           unchecked_create \<lparr>amount = 30, asset_id = 3\<rparr>] ! length two_stores) = 30"
  using asset_store_conservation [of two_stores "[Move_To 0 1 30, Move_New 1 10]"
      "[unchecked_create \<lparr>amount = 70, asset_id = 3\<rparr>, unchecked_create \<lparr>amount = 25, asset_id = 3\<rparr>,
           unchecked_create \<lparr>amount = 10, asset_id = 3\<rparr>]" 0 1 30
      "[unchecked_create \<lparr>amount = 70, asset_id = 3\<rparr>, unchecked_create \<lparr>amount = 35, asset_id = 3\<rparr>]"
      "[unchecked_create \<lparr>amount = 70, asset_id = 3\<rparr>, unchecked_create \<lparr>amount = 5, asset_id = 3\<rparr>,
           unchecked_create \<lparr>amount = 30, asset_id = 3\<rparr>]"]
    two_stores_moves two_stores_move two_stores_move_new
  by simp

text \<open>
  Claim C3. The destructor of a store, and a move assignment over it, fail the assertion
  when the store holds a nonzero amount and is not marked serialized. Right after any of the
  four serialization hooks, whatever the amount, the destructor and a move assignment over
  the store go through.
\<close>

theorem asset_store_fatal_on_leak:
  "(amount (store_amount st) \<noteq> 0 \<and> \<not> serialized st \<longrightarrow>
      destructor st = None \<and> move_assign st other = None) \<and>
   destructor (fst (to_variant st)) = Some () \<and>
   destructor (fst (pack st)) = Some () \<and>
   destructor (from_variant st v) = Some () \<and>
   destructor (unpack st v) = Some () \<and>
   move_assign (fst (to_variant st)) other \<noteq> None \<and>
   move_assign (fst (pack st)) other \<noteq> None \<and>
   move_assign (from_variant st v) other \<noteq> None \<and>
   move_assign (unpack st v) other \<noteq> None"
  by (simp add: destructor_def move_assign_def destroy_def to_variant_def pack_def
      from_variant_def unpack_def)

text \<open>
  The statement of C3 on a store created holding 7 of asset 3: destroying it or assigning
  over it fails; after \<^verbatim>\<open>to_variant\<close> it still holds 7 and its destructor goes through.
\<close>

theorem asset_store_fatal_on_leak_witness:
  "amount (store_amount (unchecked_create \<lparr>amount = 7, asset_id = 3\<rparr>)) \<noteq> 0 \<and>
   \<not> serialized (unchecked_create \<lparr>amount = 7, asset_id = 3\<rparr>) \<and>
   destructor (unchecked_create \<lparr>amount = 7, asset_id = 3\<rparr>) = None \<and>
   move_assign (unchecked_create \<lparr>amount = 7, asset_id = 3\<rparr>) empty_store = None \<and>
   amount_of (fst (to_variant (unchecked_create \<lparr>amount = 7, asset_id = 3\<rparr>))) = 7 \<and>
   destructor (fst (to_variant (unchecked_create \<lparr>amount = 7, asset_id = 3\<rparr>))) = Some ()"
  using asset_store_fatal_on_leak [of "unchecked_create \<lparr>amount = 7, asset_id = 3\<rparr>" empty_store]
  by (simp add: unchecked_create_def empty_store_def amount_of_def to_variant_def)

section \<open>Facts about tap requirement states\<close>

lemma less_tap_zero: "(k < (t, 0::nat)) = (fst k < (t::nat))"
  by (cases k) (auto simp: less_prod_def)

lemma erase_tap_entries_filter:
  "ordered_map m \<Longrightarrow> list_all (\<lambda>e. t \<le> fst (fst e)) m \<Longrightarrow>
   erase_tap_entries t m = filter (\<lambda>e. fst (fst e) \<noteq> t) m"
proof (induction m)
  case Nil
  then show ?case by simp
next
  case (Cons e es)
  show ?case
  proof (cases "fst (fst e) = t")
    case True
    with Cons show ?thesis by (simp add: ordered_map_def)
  next
    case False
    with Cons.prems have "\<forall>x \<in> set es. fst (fst x) \<noteq> t"
      by (fastforce simp: ordered_map_def less_prod_def)
    with False show ?thesis by (simp add: filter_id_conv)
  qed
qed

lemma clear_tap_state_filter:
  "ordered_map m \<Longrightarrow> clear_tap_state t m = filter (\<lambda>e. fst (fst e) \<noteq> t) m"
proof (induction m)
  case Nil
  then show ?case by (simp add: clear_tap_state_def lower_bound_def)
next
  case (Cons e es)
  then have es: "ordered_map es" by (simp add: ordered_map_def)
  show ?case
  proof (cases "fst (fst e) < t")
    case True
    with Cons.IH [OF es] show ?thesis
      by (simp add: clear_tap_state_def lower_bound_def less_tap_zero)
  next
    case False
    with Cons.prems have "list_all (\<lambda>x. t \<le> fst (fst x)) (e # es)"
      by (fastforce simp: ordered_map_def less_prod_def list_all_iff)
    from erase_tap_entries_filter [OF Cons.prems this] False show ?thesis
      by (simp add: clear_tap_state_def lower_bound_def less_tap_zero)
  qed
qed

lemma ordered_map_filter: "ordered_map m \<Longrightarrow> ordered_map (filter P m)"
  by (induction m) (auto simp: ordered_map_def)

lemma clear_tap_state_example:
  "map fst (clear_tap_state 0 [((0, 0), a), ((0, 1), b), ((1, 0), c), ((2, 0), d)]) = [(1, 0), (2, 0)]"
  by (simp add: clear_tap_state_def lower_bound_def less_tap_zero)

text \<open>
  Claim C9. On an ordered map, \<^verbatim>\<open>clear_tap_state\<close> keeps exactly the entries whose key has
  another tap index, each as it was and in the same order; clearing the same tap again
  changes nothing; from the keys (0,0), (0,1), (1,0), (2,0), clearing tap 0 leaves the keys
  (1,0), (2,0).
\<close>

theorem clear_tap_state_removes_tap:
  "ordered_map m \<Longrightarrow>
   clear_tap_state t m = filter (\<lambda>e. fst (fst e) \<noteq> t) m \<and>
   clear_tap_state t (clear_tap_state t m) = clear_tap_state t m \<and>
   map fst (clear_tap_state 0 [((0, 0), a), ((0, 1), b), ((1, 0), c), ((2, 0), d)]) = [(1, 0), (2, 0)]"
  using clear_tap_state_example [of a b c d]
  by (simp add: clear_tap_state_filter ordered_map_filter)

text \<open>The statement of C9 on the four keys, with states 10 to 13.\<close>

theorem clear_tap_state_removes_tap_witness:
  "ordered_map [((0, 0), 10::nat), ((0, 1), 11), ((1, 0), 12), ((2, 0), 13)] \<and>
   clear_tap_state 0 [((0, 0), 10::nat), ((0, 1), 11), ((1, 0), 12), ((2, 0), 13)] = [((1, 0), 12), ((2, 0), 13)] \<and>
   clear_tap_state 0 [((1, 0), 12::nat), ((2, 0), 13)] = [((1, 0), 12), ((2, 0), 13)]"
proof -
  have om: "ordered_map [((0, 0), 10::nat), ((0, 1), 11), ((1, 0), 12), ((2, 0), 13)]"
    by (simp add: ordered_map_def less_prod_def)
  note th = clear_tap_state_removes_tap [OF om, of 0 "10::nat" "11::nat" "12::nat" "13::nat"]
  have first: "clear_tap_state 0 [((0, 0), 10::nat), ((0, 1), 11), ((1, 0), 12), ((2, 0), 13)] =
      [((1, 0), 12), ((2, 0), 13)]"
    using th by simp
  have again: "clear_tap_state 0 [((1, 0), 12::nat), ((2, 0), 13)] = [((1, 0), 12), ((2, 0), 13)]"
    using th unfolding first by simp
  from om first again show ?thesis by simp
qed

end
